theory Spec2Isabelle
  imports Complex_Main "HOL-Library.Word" "HOL-Library.Multiset"
begin

section \<open>Values, errors and the environment of \<^verbatim>\<open>convert.py\<close>\<close>

text \<open>
  The program keeps its configuration in a Python dict with string keys, read from and
  written to \<^verbatim>\<open>config.json\<close>. A dict is a map from keys to values; the values are the
  Python values that \<^verbatim>\<open>json.loads\<close> can produce (floats are left out of the model).
  A JSON object is read as a dict, so \<open>PDict\<close> holds a map too.
\<close>

datatype pyval =
    PNone
  | PBool bool
  | PInt int
  | PStr string
  | PList "pyval list"
  | PDict "string \<Rightarrow> pyval option"

type_synonym dict = "string \<rightharpoonup> pyval"

datatype error =
    KeyError
  | ValueError
  | TypeError
  | AttributeError
  | OSError
  | EOFError
  | ZeroDivisionError

text \<open>\<^verbatim>\<open>d[k]\<close> raises KeyError on a missing key.\<close>

definition getitem :: "dict \<Rightarrow> string \<Rightarrow> error + pyval" where
  "getitem d k = (case d k of None \<Rightarrow> Inl KeyError | Some v \<Rightarrow> Inr v)"

text \<open>
  The file \<^verbatim>\<open>config.json\<close>: absent, present but unreadable or not JSON
  (\<^verbatim>\<open>read_text\<close> or \<^verbatim>\<open>json.loads\<close> raises), or holding the text of a JSON value.
  What \<^verbatim>\<open>json.dumps\<close> writes for a value, \<^verbatim>\<open>json.loads\<close> reads back as that value, so
  the model keeps the value and not its text. \<open>config_writable\<close> says whether
  \<^verbatim>\<open>write_text\<close> succeeds.
\<close>

datatype config_file = NoFile | BadFile | JsonFile pyval

record env =
  config_file :: config_file
  config_writable :: bool

section \<open>Config Store\<close>

definition default_config :: dict where
  "default_config = [''output_format'' \<mapsto> PStr ''png'', ''jpeg_quality'' \<mapsto> PInt 95]"

text \<open>
  \<^verbatim>\<open>{**default, **json.loads(...)}\<close>: unpacking a value that is not a dict raises
  TypeError, which the bare \<^verbatim>\<open>except\<close> swallows like every other failure.
\<close>

definition load_config :: "env \<Rightarrow> dict" where
  "load_config e =
     (case config_file e of
        NoFile \<Rightarrow> default_config
      | BadFile \<Rightarrow> default_config
      | JsonFile v \<Rightarrow>
          (case v of
             PDict d \<Rightarrow> default_config ++ d
           | _ \<Rightarrow> default_config))"

text \<open>
  \<^verbatim>\<open>save_config\<close> writes the dict as a JSON object; a failing write is swallowed and
  leaves the file as it was.
\<close>

definition save_config :: "dict \<Rightarrow> env \<Rightarrow> env" where
  "save_config cfg e =
     (if config_writable e then e\<lparr>config_file := JsonFile (PDict cfg)\<rparr> else e)"

section \<open>Interactive Shell: the format prompt\<close>

text \<open>
  A line typed by the user is a string; \<^verbatim>\<open>input()\<close> raises EOFError when no line is
  left. \<^verbatim>\<open>str.strip()\<close> removes leading and trailing whitespace, \<^verbatim>\<open>str.lower()\<close>
  maps \<^verbatim>\<open>A\<close>..\<^verbatim>\<open>Z\<close> to \<^verbatim>\<open>a\<close>..\<^verbatim>\<open>z\<close> (characters are bytes here, so only
  the ASCII part of both is modelled).
\<close>

definition isspace :: "char \<Rightarrow> bool" where
  "isspace c = (let n = (of_char c :: nat) in (9 \<le> n \<and> n \<le> 13) \<or> (28 \<le> n \<and> n \<le> 32))"

definition strip :: "string \<Rightarrow> string" where
  "strip s = rev (dropWhile isspace (rev (dropWhile isspace s)))"

definition lower_char :: "char \<Rightarrow> char" where
  "lower_char c =
     (let n = (of_char c :: nat) in if 65 \<le> n \<and> n \<le> 90 then char_of (n + 32) else c)"

definition lower :: "string \<Rightarrow> string" where
  "lower s = map lower_char s"

text \<open>
  \<^verbatim>\<open>int(s)\<close> in base 10: surrounding whitespace, one optional sign, then decimal digits
  with single underscores allowed between digits; anything else raises ValueError. So
  does a literal of more than 4300 digits (CPython's default limit on the conversion).
\<close>

definition isdigit :: "char \<Rightarrow> bool" where
  "isdigit c = (let n = (of_char c :: nat) in 48 \<le> n \<and> n \<le> 57)"

definition digit_val :: "char \<Rightarrow> nat" where
  "digit_val c = of_char c - 48"

fun parse_digits :: "nat \<Rightarrow> bool \<Rightarrow> string \<Rightarrow> nat option" where
  "parse_digits acc after_digit [] = (if after_digit then Some acc else None)"
| "parse_digits acc after_digit (c # cs) =
     (if isdigit c then parse_digits (10 * acc + digit_val c) True cs
      else if c = CHR ''_'' \<and> after_digit then parse_digits acc False cs
      else None)"

definition max_str_digits :: nat where
  "max_str_digits = 4300"

definition parse_unsigned :: "string \<Rightarrow> error + nat" where
  "parse_unsigned s =
     (if max_str_digits < length (filter isdigit s) then Inl ValueError
      else case parse_digits 0 False s of None \<Rightarrow> Inl ValueError | Some n \<Rightarrow> Inr n)"

definition py_int :: "string \<Rightarrow> error + pyval" where
  "py_int s =
     (case strip s of
        [] \<Rightarrow> Inl ValueError
      | c # cs \<Rightarrow>
          if c = CHR ''-'' then
            (case parse_unsigned cs of Inl e \<Rightarrow> Inl e | Inr n \<Rightarrow> Inr (PInt (- int n)))
          else if c = CHR ''+'' then
            (case parse_unsigned cs of Inl e \<Rightarrow> Inl e | Inr n \<Rightarrow> Inr (PInt (int n)))
          else
            (case parse_unsigned (c # cs) of Inl e \<Rightarrow> Inl e | Inr n \<Rightarrow> Inr (PInt (int n))))"

text \<open>
  \<^verbatim>\<open>min(100, q)\<close> and \<^verbatim>\<open>max(1, q)\<close>: the first argument is returned unless the second
  is strictly smaller (greater). Comparing an int with a value that is neither an int nor
  a bool raises TypeError; a bool compares as 0 or 1.
\<close>

fun as_int :: "pyval \<Rightarrow> int option" where
  "as_int (PInt n) = Some n"
| "as_int (PBool b) = Some (if b then 1 else 0)"
| "as_int _ = None"

definition py_min :: "int \<Rightarrow> pyval \<Rightarrow> error + pyval" where
  "py_min a q = (case as_int q of None \<Rightarrow> Inl TypeError
                 | Some n \<Rightarrow> Inr (if n < a then q else PInt a))"

definition py_max :: "int \<Rightarrow> pyval \<Rightarrow> error + pyval" where
  "py_max a q = (case as_int q of None \<Rightarrow> Inl TypeError
                 | Some n \<Rightarrow> Inr (if a < n then q else PInt a))"

text \<open>
  Lines 72 to 77 of \<^verbatim>\<open>choose_format\<close>, given the line typed at the quality prompt: the
  \<^verbatim>\<open>try\<close> block parses and clamps, the bare \<^verbatim>\<open>except\<close> falls back to the configured
  value as it is.
\<close>

definition quality_try :: "dict \<Rightarrow> string \<Rightarrow> error + pyval" where
  "quality_try cfg q_input =
     (case (if q_input \<noteq> [] then py_int q_input else getitem cfg ''jpeg_quality'') of
        Inl e \<Rightarrow> Inl e
      | Inr q \<Rightarrow> (case py_min 100 q of Inl e \<Rightarrow> Inl e | Inr m \<Rightarrow> py_max 1 m))"

definition quality_prompt :: "dict \<Rightarrow> string \<Rightarrow> error + pyval" where
  "quality_prompt cfg line =
     (let q_input = strip line in
      case quality_try cfg q_input of
        Inr q \<Rightarrow> Inr q
      | Inl _ \<Rightarrow> getitem cfg ''jpeg_quality'')"

text \<open>
  The \<^verbatim>\<open>while True\<close> loop of \<^verbatim>\<open>choose_format\<close> over the lines the user types. The
  result is the error raised, \<open>None\<close> for quit, or the chosen configuration, together
  with the lines not yet read.
\<close>

fun choose_loop :: "dict \<Rightarrow> string list \<Rightarrow> (error + dict option) \<times> string list" where
  "choose_loop cfg [] = (Inl EOFError, [])"
| "choose_loop cfg (line # rest) =
     (if lower (strip line) = ''q'' then (Inr None, rest)
      else if lower (strip line) = ''1'' then
        (case rest of
           [] \<Rightarrow> (Inl EOFError, [])
         | q_line # rest' \<Rightarrow>
             (case quality_prompt cfg q_line of
                Inl e \<Rightarrow> (Inl e, rest')
              | Inr q \<Rightarrow>
                  (Inr (Some (cfg(''output_format'' \<mapsto> PStr ''jpeg'', ''jpeg_quality'' \<mapsto> q))),
                   rest')))
      else if lower (strip line) = ''2'' then
        (Inr (Some (cfg(''output_format'' \<mapsto> PStr ''png''))), rest)
      else choose_loop cfg rest)"

text \<open>
  \<^verbatim>\<open>choose_format\<close>: load, ask, and save what was chosen. Quit returns before the save.
\<close>

definition choose_format :: "env \<Rightarrow> string list \<Rightarrow> (error + dict option) \<times> string list \<times> env" where
  "choose_format e inputs =
     (case choose_loop (load_config e) inputs of
        (Inr (Some cfg), rest) \<Rightarrow> (Inr (Some cfg), rest, save_config cfg e)
      | (r, rest) \<Rightarrow> (r, rest, e))"

section \<open>Images and the operations of the imaging library\<close>

text \<open>
  A decoded image has a mode, a size (width, height) and one value per pixel, whose shape
  the mode fixes. The model covers the modes \<^verbatim>\<open>L\<close> (grayscale), \<^verbatim>\<open>LA\<close> (grayscale
  with alpha), \<^verbatim>\<open>P\<close> (palette), \<^verbatim>\<open>RGB\<close> and \<^verbatim>\<open>RGBA\<close>; bands are 8-bit. The
  palette of a \<^verbatim>\<open>P\<close> image is a table of 256 RGBA entries, indexed by the pixel value;
  a palette image with transparency is one whose table has entries with alpha below 255.
\<close>

type_synonym byte = "8 word"
type_synonym rgb = "byte \<times> byte \<times> byte"
type_synonym rgba = "byte \<times> byte \<times> byte \<times> byte"

datatype pixels =
    Px_L "byte list"
  | Px_LA "(byte \<times> byte) list"
  | Px_P "byte list" "byte \<Rightarrow> rgba"
  | Px_RGB "rgb list"
  | Px_RGBA "rgba list"

record image =
  im_size :: "nat \<times> nat"
  im_data :: pixels

definition mode :: "image \<Rightarrow> string" where
  "mode img =
     (case im_data img of
        Px_L _ \<Rightarrow> ''L''
      | Px_LA _ \<Rightarrow> ''LA''
      | Px_P _ _ \<Rightarrow> ''P''
      | Px_RGB _ \<Rightarrow> ''RGB''
      | Px_RGBA _ \<Rightarrow> ''RGBA'')"

fun npixels :: "pixels \<Rightarrow> nat" where
  "npixels (Px_L xs) = length xs"
| "npixels (Px_LA xs) = length xs"
| "npixels (Px_P xs pal) = length xs"
| "npixels (Px_RGB xs) = length xs"
| "npixels (Px_RGBA xs) = length xs"

text \<open>An image is well formed when it holds width times height pixels.\<close>

definition valid_image :: "image \<Rightarrow> bool" where
  "valid_image img = (npixels (im_data img) = fst (im_size img) * snd (im_size img))"

text \<open>\<^verbatim>\<open>Image.new("RGB", size, color)\<close>: every pixel has the given colour.\<close>

definition Image_new_RGB :: "nat \<times> nat \<Rightarrow> rgb \<Rightarrow> image" where
  "Image_new_RGB sz color = \<lparr>im_size = sz, im_data = Px_RGB (replicate (fst sz * snd sz) color)\<rparr>"

text \<open>
  \<^verbatim>\<open>img.convert(mode)\<close> for the two targets the program asks for. Grayscale is
  replicated into the three colour bands, a palette index is replaced by its table entry,
  a missing alpha band is filled with 255, and converting to \<^verbatim>\<open>RGB\<close> drops the alpha
  band without blending. Other targets are outside the model and rejected.
\<close>

fun rgb_of :: "rgba \<Rightarrow> rgb" where
  "rgb_of (r, g, b, a) = (r, g, b)"

fun alpha_of :: "rgba \<Rightarrow> byte" where
  "alpha_of (r, g, b, a) = a"

fun to_rgba :: "pixels \<Rightarrow> rgba list" where
  "to_rgba (Px_L xs) = map (\<lambda>l. (l, l, l, 255)) xs"
| "to_rgba (Px_LA xs) = map (\<lambda>(l, a). (l, l, l, a)) xs"
| "to_rgba (Px_P xs pal) = map pal xs"
| "to_rgba (Px_RGB xs) = map (\<lambda>(r, g, b). (r, g, b, 255)) xs"
| "to_rgba (Px_RGBA xs) = xs"

fun to_rgb :: "pixels \<Rightarrow> rgb list" where
  "to_rgb (Px_L xs) = map (\<lambda>l. (l, l, l)) xs"
| "to_rgb (Px_LA xs) = map (\<lambda>(l, a). (l, l, l)) xs"
| "to_rgb (Px_P xs pal) = map (\<lambda>i. rgb_of (pal i)) xs"
| "to_rgb (Px_RGB xs) = xs"
| "to_rgb (Px_RGBA xs) = map rgb_of xs"

definition convert :: "image \<Rightarrow> string \<Rightarrow> error + image" where
  "convert img m =
     (if m = ''RGB'' then Inr (img\<lparr>im_data := Px_RGB (to_rgb (im_data img))\<rparr>)
      else if m = ''RGBA'' then Inr (img\<lparr>im_data := Px_RGBA (to_rgba (im_data img))\<rparr>)
      else Inl ValueError)"

text \<open>\<^verbatim>\<open>img.split()\<close>: the bands of an image, each a single-band image of the same size.\<close>

definition band :: "image \<Rightarrow> byte list \<Rightarrow> image" where
  "band img xs = img\<lparr>im_data := Px_L xs\<rparr>"

definition split :: "image \<Rightarrow> image list" where
  "split img =
     (case im_data img of
        Px_L xs \<Rightarrow> [img]
      | Px_LA xs \<Rightarrow> [band img (map fst xs), band img (map snd xs)]
      | Px_P xs pal \<Rightarrow> [img]
      | Px_RGB xs \<Rightarrow>
          [band img (map fst xs), band img (map (\<lambda>p. fst (snd p)) xs),
           band img (map (\<lambda>p. snd (snd p)) xs)]
      | Px_RGBA xs \<Rightarrow>
          [band img (map fst xs), band img (map (\<lambda>p. fst (snd p)) xs),
           band img (map (\<lambda>p. fst (snd (snd p))) xs), band img (map alpha_of xs)])"

text \<open>
  \<^verbatim>\<open>bg.paste(img, mask=m)\<close> blends the source into the destination, band by band,
  weighted by the mask. The library computes, on unsigned integers,
  \<^verbatim>\<open>DIV255(a, tmp) = (tmp = a + 128, ((tmp >> 8) + tmp) >> 8)\<close> and
  \<^verbatim>\<open>BLEND(mask, in1, in2) = DIV255(in1 * (255 - mask) + in2 * mask)\<close>,
  with \<^verbatim>\<open>in1\<close> the destination and \<^verbatim>\<open>in2\<close> the source. Only the call the program
  makes is modelled: an \<^verbatim>\<open>RGBA\<close> source and an \<^verbatim>\<open>L\<close> mask, both of the size of the
  \<^verbatim>\<open>RGB\<close> destination; any other call is rejected.
\<close>

definition DIV255 :: "nat \<Rightarrow> nat" where
  "DIV255 a = (let tmp = a + 128 in drop_bit 8 (drop_bit 8 tmp + tmp))"

definition BLEND :: "byte \<Rightarrow> byte \<Rightarrow> byte \<Rightarrow> byte" where
  "BLEND m in1 in2 = of_nat (DIV255 (unat in1 * (255 - unat m) + unat in2 * unat m))"

fun paste_pixel :: "rgb \<times> rgba \<times> byte \<Rightarrow> rgb" where
  "paste_pixel ((r1, g1, b1), (r2, g2, b2, a2), m) = (BLEND m r1 r2, BLEND m g1 g2, BLEND m b1 b2)"

definition paste :: "image \<Rightarrow> image \<Rightarrow> image \<Rightarrow> error + image" where
  "paste self source msk =
     (if im_size source \<noteq> im_size self \<or> im_size msk \<noteq> im_size source then Inl ValueError
      else case (im_data self, im_data source, im_data msk) of
             (Px_RGB outs, Px_RGBA ins, Px_L ms) \<Rightarrow>
               Inr (self\<lparr>im_data := Px_RGB (map paste_pixel (zip outs (zip ins ms)))\<rparr>)
           | _ \<Rightarrow> Inl ValueError)"

section \<open>Image Normalizer\<close>

text \<open>
  \<^verbatim>\<open>sanitize_image\<close>, branch by branch. The white canvas is made for the modes
  \<^verbatim>\<open>RGBA\<close>, \<^verbatim>\<open>LA\<close> and \<^verbatim>\<open>P\<close>; a palette image is expanded to \<^verbatim>\<open>RGBA\<close>; the
  paste happens when the mode is then \<^verbatim>\<open>RGBA\<close>; the canvas is the result.
\<close>

definition sanitize_image :: "image \<Rightarrow> error + image" where
  "sanitize_image img =
     (if mode img \<in> {''RGBA'', ''LA'', ''P''} then
        (let bg = Image_new_RGB (im_size img) (255, 255, 255) in
         case (if mode img = ''P'' then convert img ''RGBA'' else Inr img) of
           Inl e \<Rightarrow> Inl e
         | Inr img1 \<Rightarrow>
             if mode img1 = ''RGBA'' then paste bg img1 (last (split img1))
             else Inr bg)
      else if mode img \<noteq> ''RGB'' then convert img ''RGB''
      else Inr img)"

section \<open>Converter Loop\<close>

text \<open>
  An entry of the input directory, with what the file system and the decoder answer for
  it: \<open>st_size\<close> is \<^verbatim>\<open>fp.stat().st_size\<close>, \<open>decode\<close> is \<^verbatim>\<open>Image.open(fp)\<close>
  followed by \<^verbatim>\<open>img.load()\<close>. Both may raise.
\<close>

record dir_entry =
  name :: string
  is_file :: bool
  st_size :: "error + nat"
  decode :: "error + image"

record conv_record =
  filename :: string
  original_size :: nat
  converted_size :: nat

text \<open>
  \<^verbatim>\<open>img.save\<close> with the options of the two calls; the encoder is a parameter of the
  model. It is given the output file's name, the options and the image, and returns the
  bytes written, or the error of the encoder or of the write. The output directory maps
  file names to contents.
\<close>

datatype save_options =
    JPEG pyval bool
  | PNG bool nat

type_synonym saver = "string \<Rightarrow> save_options \<Rightarrow> image \<Rightarrow> error + byte list"
type_synonym outdir = "string \<rightharpoonup> byte list"

text \<open>
  \<^verbatim>\<open>Path.suffix\<close> and \<^verbatim>\<open>Path.stem\<close>: the name is cut at its last dot, unless that dot
  is the first or the last character or there is none.
\<close>

definition rfind_dot :: "string \<Rightarrow> nat option" where
  "rfind_dot s =
     (if CHR ''.'' \<in> set s
      then Some (length s - 1 - length (takeWhile (\<lambda>c. c \<noteq> CHR ''.'') (rev s)))
      else None)"

definition suffix :: "string \<Rightarrow> string" where
  "suffix s =
     (case rfind_dot s of
        None \<Rightarrow> []
      | Some i \<Rightarrow> if 0 < i \<and> i < length s - 1 then drop i s else [])"

definition stem :: "string \<Rightarrow> string" where
  "stem s =
     (case rfind_dot s of
        None \<Rightarrow> s
      | Some i \<Rightarrow> if 0 < i \<and> i < length s - 1 then take i s else s)"

definition eligible :: "dir_entry \<Rightarrow> bool" where
  "eligible f = (is_file f \<and> lower (suffix (name f)) \<in> {''.heic'', ''.heif''})"

definition options_for :: "pyval \<Rightarrow> pyval \<Rightarrow> save_options" where
  "options_for fmt quality = (if fmt = PStr ''jpeg'' then JPEG quality True else PNG False 1)"

text \<open>
  The body of the \<^verbatim>\<open>try\<close> block for one file: the record to append, or the exception
  raised, and the output directory afterwards.
\<close>

definition convert_one ::
  "saver \<Rightarrow> pyval \<Rightarrow> pyval \<Rightarrow> string \<Rightarrow> dir_entry \<Rightarrow> outdir \<Rightarrow> (error + conv_record) \<times> outdir" where
  "convert_one save fmt quality ext fp out =
     (case st_size fp of
        Inl e \<Rightarrow> (Inl e, out)
      | Inr orig_size \<Rightarrow>
          (case decode fp of
             Inl e \<Rightarrow> (Inl e, out)
           | Inr img0 \<Rightarrow>
               (case sanitize_image img0 of
                  Inl e \<Rightarrow> (Inl e, out)
                | Inr img \<Rightarrow>
                    (let out_path = stem (name fp) @ ext in
                     case save out_path (options_for fmt quality) img of
                       Inl e \<Rightarrow> (Inl e, out)
                     | Inr bytes \<Rightarrow>
                         (Inr \<lparr>filename = name fp, original_size = orig_size,
                               converted_size = length bytes\<rparr>,
                          out(out_path \<mapsto> bytes))))))"

text \<open>
  The \<^verbatim>\<open>for\<close> loop: \<^verbatim>\<open>except Exception\<close> reports the error and goes on with the next
  file.
\<close>

fun convert_loop ::
  "saver \<Rightarrow> pyval \<Rightarrow> pyval \<Rightarrow> string \<Rightarrow> dir_entry list \<Rightarrow> conv_record list \<Rightarrow> outdir
     \<Rightarrow> conv_record list \<times> outdir" where
  "convert_loop save fmt quality ext [] stats out = (stats, out)"
| "convert_loop save fmt quality ext (fp # fps) stats out =
     (case convert_one save fmt quality ext fp out of
        (Inr r, out') \<Rightarrow> convert_loop save fmt quality ext fps (stats @ [r]) out'
      | (Inl e, out') \<Rightarrow> convert_loop save fmt quality ext fps stats out')"

text \<open>
  \<^verbatim>\<open>convert_files\<close>: the entries of the input directory in the order
  \<^verbatim>\<open>iterdir\<close> yields them, the output directory, and the lines the user types. Outside
  the loop, \<^verbatim>\<open>config["output_format"]\<close> raises KeyError on a missing key,
  \<^verbatim>\<open>fmt.upper()\<close> raises AttributeError unless \<^verbatim>\<open>fmt\<close> is a string, and the prompt
  of the empty case raises EOFError when no line is left.
\<close>

definition convert_files ::
  "saver \<Rightarrow> dict \<Rightarrow> dir_entry list \<Rightarrow> outdir \<Rightarrow> string list
     \<Rightarrow> (error + conv_record list) \<times> outdir \<times> string list" where
  "convert_files save config entries out inputs =
     (let files = filter eligible entries in
      if files = [] then
        (case inputs of
           [] \<Rightarrow> (Inl EOFError, out, [])
         | l # rest \<Rightarrow> (Inr [], out, rest))
      else
        (case getitem config ''output_format'' of
           Inl e \<Rightarrow> (Inl e, out, inputs)
         | Inr fmt \<Rightarrow>
             (let quality = (case config ''jpeg_quality'' of None \<Rightarrow> PInt 95 | Some q \<Rightarrow> q);
                  ext = (if fmt = PStr ''jpeg'' then ''.jpg'' else ''.png'')
              in case fmt of
                   PStr s \<Rightarrow>
                     (case convert_loop save fmt quality ext files [] out of
                        (stats, out') \<Rightarrow> (Inr stats, out', inputs))
                 | _ \<Rightarrow> (Inl AttributeError, out, inputs))))"

section \<open>Reporter\<close>

text \<open>
  \<^verbatim>\<open>sorted(stats, key=..., reverse=True)\<close> is a stable sort on the reversed list,
  reversed again: records with equal keys keep their order. \<open>sort_key\<close> is a stable
  insertion sort.
\<close>

definition sorted_reverse :: "('a \<Rightarrow> nat) \<Rightarrow> 'a list \<Rightarrow> 'a list" where
  "sorted_reverse key xs = rev (sort_key key (rev xs))"

definition top3 :: "conv_record list \<Rightarrow> conv_record list" where
  "top3 stats = take 3 (sorted_reverse converted_size stats)"

text \<open>
  \<^verbatim>\<open>a / b\<close> on integers raises ZeroDivisionError when \<^verbatim>\<open>b\<close> is zero. The quotient is
  kept exact here, as a rational; Python rounds it to a float.
\<close>

definition truediv :: "nat \<Rightarrow> nat \<Rightarrow> error + rat" where
  "truediv a b = (if b = 0 then Inl ZeroDivisionError else Inr (of_nat a / of_nat b))"

definition ratio :: "conv_record \<Rightarrow> error + rat" where
  "ratio s =
     (if original_size s \<noteq> 0 then truediv (converted_size s) (original_size s) else Inr 1)"

text \<open>
  The last block of \<^verbatim>\<open>print_summary\<close>: one line per record of \<open>top3\<close>, with the
  file name, the two sizes and the ratio (the sizes are printed through
  \<^verbatim>\<open>humanize.naturalsize\<close>, the ratio with two decimals; the model keeps the values).
\<close>

fun top_lines :: "conv_record list \<Rightarrow> error + (string \<times> nat \<times> nat \<times> rat) list" where
  "top_lines [] = Inr []"
| "top_lines (s # ss) =
     (case ratio s of
        Inl e \<Rightarrow> Inl e
      | Inr r \<Rightarrow>
          (case top_lines ss of
             Inl e \<Rightarrow> Inl e
           | Inr ls \<Rightarrow> Inr ((filename s, original_size s, converted_size s, r) # ls)))"

definition print_summary_top :: "conv_record list \<Rightarrow> error + (string \<times> nat \<times> nat \<times> rat) list" where
  "print_summary_top stats = (if stats \<noteq> [] then top_lines (top3 stats) else Inr [])"

section \<open>Vocabulary of the properties\<close>

text \<open>The invariant on the quality field: an integer from 1 to 100.\<close>

definition quality_in_range :: "dict \<Rightarrow> bool" where
  "quality_in_range cfg =
     (case cfg ''jpeg_quality'' of Some (PInt q) \<Rightarrow> 1 \<le> q \<and> q \<le> 100 | _ \<Rightarrow> False)"

definition valid_config :: "dict \<Rightarrow> bool" where
  "valid_config cfg =
     ((cfg ''output_format'' = Some (PStr ''png'') \<or> cfg ''output_format'' = Some (PStr ''jpeg''))
      \<and> quality_in_range cfg)"

text \<open>The quality that \<^verbatim>\<open>config.json\<close> holds, if it is a JSON object with that key.\<close>

definition file_quality :: "env \<Rightarrow> pyval option" where
  "file_quality e =
     (case config_file e of
        JsonFile (PDict d) \<Rightarrow> d ''jpeg_quality''
      | _ \<Rightarrow> None)"

text \<open>The quality of the configuration that \<open>choose_format\<close> returns for the lines typed.\<close>

definition chosen_quality :: "env \<Rightarrow> string list \<Rightarrow> pyval option" where
  "chosen_quality e inputs =
     (case fst (choose_format e inputs) of
        Inr (Some cfg) \<Rightarrow> cfg ''jpeg_quality''
      | _ \<Rightarrow> None)"

text \<open>
  A file of the batch is valid when its size can be read, it decodes, and its normalized
  image is encoded and written; it is unreadable when the size or the decoding fails.
\<close>

definition valid_file :: "saver \<Rightarrow> save_options \<Rightarrow> string \<Rightarrow> dir_entry \<Rightarrow> bool" where
  "valid_file save opts ext fp =
     (case (st_size fp, decode fp) of
        (Inr n, Inr img0) \<Rightarrow>
          (case sanitize_image img0 of
             Inl e \<Rightarrow> False
           | Inr img \<Rightarrow> (case save (stem (name fp) @ ext) opts img of Inl e \<Rightarrow> False | Inr bytes \<Rightarrow> True))
      | _ \<Rightarrow> False)"

definition unreadable :: "dir_entry \<Rightarrow> bool" where
  "unreadable fp =
     (case (st_size fp, decode fp) of
        (Inr n, Inr img0) \<Rightarrow> False
      | _ \<Rightarrow> True)"

text \<open>The ratio the summary shows for a record.\<close>

definition shown_ratio :: "conv_record \<Rightarrow> rat" where
  "shown_ratio s =
     (if original_size s = 0 then 1 else of_nat (converted_size s) / of_nat (original_size s))"

text \<open>Concrete inputs used to exercise the theorems.\<close>

definition env500 :: env where
  "env500 = \<lparr>config_file = JsonFile (PDict [''jpeg_quality'' \<mapsto> PInt 500]),
             config_writable = True\<rparr>"

definition env80 :: env where
  "env80 = \<lparr>config_file =
               JsonFile (PDict [''jpeg_quality'' \<mapsto> PInt 80, ''output_format'' \<mapsto> PStr ''jpeg'']),
            config_writable = True\<rparr>"

definition env_fresh :: env where
  "env_fresh = \<lparr>config_file = NoFile, config_writable = True\<rparr>"

text \<open>Records in descending order of converted size.\<close>

definition descending :: "conv_record list \<Rightarrow> bool" where
  "descending rs = sorted_wrt (\<lambda>a b. converted_size b \<le> converted_size a) rs"

definition shown_line :: "conv_record \<Rightarrow> string \<times> nat \<times> nat \<times> rat" where
  "shown_line s = (filename s, original_size s, converted_size s, shown_ratio s)"

definition stats4 :: "conv_record list" where
  "stats4 =
     [\<lparr>filename = ''a.heic'', original_size = 0, converted_size = 5\<rparr>,
      \<lparr>filename = ''b.heic'', original_size = 10, converted_size = 7\<rparr>,
      \<lparr>filename = ''c.heic'', original_size = 10, converted_size = 5\<rparr>,
      \<lparr>filename = ''d.heic'', original_size = 10, converted_size = 9\<rparr>]"

definition pixel_image :: image where
  "pixel_image = \<lparr>im_size = (1, 1), im_data = Px_RGBA [(10, 20, 30, 255)]\<rparr>"

definition good_a :: dir_entry where
  "good_a = \<lparr>name = ''a.heic'', is_file = True, st_size = Inr 500, decode = Inr pixel_image\<rparr>"

definition bad_b :: dir_entry where
  "bad_b = \<lparr>name = ''b.heic'', is_file = True, st_size = Inr 400, decode = Inl OSError\<rparr>"

definition good_c :: dir_entry where
  "good_c = \<lparr>name = ''c.HEIF'', is_file = True, st_size = Inr 300, decode = Inr pixel_image\<rparr>"

definition three_bytes :: saver where
  "three_bytes path opts img = Inr [1, 2, 3]"

definition jpeg80 :: dict where
  "jpeg80 = [''output_format'' \<mapsto> PStr ''jpeg'', ''jpeg_quality'' \<mapsto> PInt 80]"

section \<open>Config Store and format prompt: theorems\<close>

lemmas str_defs = strip_def isspace_def lower_def lower_char_def py_int_def parse_unsigned_def
  isdigit_def digit_val_def max_str_digits_def

lemma load_config_jpeg_quality:
  "load_config e ''jpeg_quality'' =
     Some (case file_quality e of None \<Rightarrow> PInt 95 | Some v \<Rightarrow> v)"
  by (simp add: load_config_def default_config_def file_quality_def map_add_def
      split: config_file.splits pyval.splits option.splits)

text \<open>
  C2, as stated, fails: a configuration file whose \<^verbatim>\<open>jpeg_quality\<close> is 500 is loaded
  with quality 500, outside the range 1 to 100.
\<close>

theorem load_config_out_of_range: "\<not> quality_in_range (load_config env500)"
  by (simp add: quality_in_range_def load_config_def default_config_def env500_def)

text \<open>
  C2, amended: \<open>load_config\<close> returns the defaults overlaid with the keys of the file
  and clamps nothing. The loaded \<^verbatim>\<open>jpeg_quality\<close> is 95 when the file is absent,
  unreadable, not a JSON object or has no such key, and is the file's value unchanged
  otherwise; so it lies in the range 1 to 100 exactly when the file gives no value or
  gives an integer in that range.
\<close>

theorem load_config_not_clamped:
  "load_config e ''jpeg_quality'' =
     Some (case file_quality e of None \<Rightarrow> PInt 95 | Some v \<Rightarrow> v)
   \<and> quality_in_range (load_config e) =
     (case file_quality e of
        None \<Rightarrow> True
      | Some v \<Rightarrow> (case v of PInt q \<Rightarrow> 1 \<le> q \<and> q \<le> 100 | _ \<Rightarrow> False))"
  by (simp add: load_config_jpeg_quality quality_in_range_def split: option.splits pyval.splits)

lemma quality_prompt_numeric:
  "quality_prompt cfg ''0'' = Inr (PInt 1)"
  "quality_prompt cfg ''101'' = Inr (PInt 100)"
  "quality_prompt cfg ''-5'' = Inr (PInt 1)"
  by (simp_all add: quality_prompt_def quality_try_def py_min_def py_max_def str_defs)

lemma quality_prompt_fallback:
  assumes "cfg ''jpeg_quality'' = Some (PInt q)" "1 \<le> q" "q \<le> 100"
  shows "quality_prompt cfg ''abc'' = Inr (PInt q)" "quality_prompt cfg [] = Inr (PInt q)"
  using assms
  by (simp_all add: quality_prompt_def quality_try_def py_min_def py_max_def getitem_def str_defs)

lemma chosen_quality_jpeg:
  "quality_prompt (load_config e) l = Inr q \<Longrightarrow> chosen_quality e [''1'', l] = Some q"
  by (simp add: chosen_quality_def choose_format_def strip_def isspace_def lower_def lower_char_def)

text \<open>
  C3, as stated, fails: with a configuration file whose \<^verbatim>\<open>jpeg_quality\<close> is 500, the
  input \<^verbatim>\<open>abc\<close> at the quality prompt resolves to 500.
\<close>

theorem quality_prompt_abc_500: "chosen_quality env500 [''1'', ''abc''] = Some (PInt 500)"
  by (simp add: chosen_quality_def choose_format_def load_config_def default_config_def
      quality_prompt_def quality_try_def getitem_def env500_def str_defs)

text \<open>
  C3, amended: at the quality prompt the inputs \<^verbatim>\<open>0\<close>, \<^verbatim>\<open>101\<close> and \<^verbatim>\<open>-5\<close> resolve
  to 1, 100 and 1, whatever the configuration. When the \<^verbatim>\<open>jpeg_quality\<close> of the loaded
  configuration is an integer from 1 to 100, the inputs \<^verbatim>\<open>abc\<close> and the empty line
  resolve to that value, so all five resolve to a value from 1 to 100.
\<close>

theorem quality_prompt_resolves:
  "chosen_quality e [''1'', ''0''] = Some (PInt 1) \<and>
   chosen_quality e [''1'', ''101''] = Some (PInt 100) \<and>
   chosen_quality e [''1'', ''-5''] = Some (PInt 1) \<and>
   (quality_in_range (load_config e) \<longrightarrow>
      chosen_quality e [''1'', ''abc''] = load_config e ''jpeg_quality'' \<and>
      chosen_quality e [''1'', ''''] = load_config e ''jpeg_quality'')"
proof -
  have fb: "chosen_quality e [''1'', ''abc''] = load_config e ''jpeg_quality'' \<and>
      chosen_quality e [''1'', ''''] = load_config e ''jpeg_quality''"
    if "quality_in_range (load_config e)"
  proof -
    from that obtain q where q: "load_config e ''jpeg_quality'' = Some (PInt q)" "1 \<le> q" "q \<le> 100"
      by (auto simp: quality_in_range_def split: option.splits pyval.splits)
    show ?thesis
      using quality_prompt_fallback [of "load_config e" q] q by (simp add: chosen_quality_jpeg)
  qed
  show ?thesis
    using fb by (simp add: chosen_quality_jpeg quality_prompt_numeric)
qed

theorem quality_prompt_resolves_witness:
  "quality_in_range (load_config env_fresh) \<and>
   chosen_quality env_fresh [''1'', ''0''] = Some (PInt 1) \<and>
   chosen_quality env_fresh [''1'', ''101''] = Some (PInt 100) \<and>
   chosen_quality env_fresh [''1'', ''-5''] = Some (PInt 1) \<and>
   chosen_quality env_fresh [''1'', ''abc''] = Some (PInt 95) \<and>
   chosen_quality env_fresh [''1'', ''''] = Some (PInt 95)"
proof -
  have q: "load_config env_fresh ''jpeg_quality'' = Some (PInt 95)"
    by (simp add: load_config_def default_config_def env_fresh_def)
  then have r: "quality_in_range (load_config env_fresh)"
    by (simp add: quality_in_range_def)
  show ?thesis
    using quality_prompt_resolves [of env_fresh] r q by simp
qed

text \<open>
  C8: for a valid configuration (format \<^verbatim>\<open>png\<close> or \<^verbatim>\<open>jpeg\<close>, quality an integer from
  1 to 100), saving it and loading again yields the same configuration, when the write
  succeeds.
\<close>

theorem config_round_trip:
  assumes "valid_config cfg" and "config_writable e"
  shows "load_config (save_config cfg e) = cfg"
proof
  fix k
  from assms(1) obtain a b where "cfg ''output_format'' = Some a" "cfg ''jpeg_quality'' = Some b"
    by (auto simp: valid_config_def quality_in_range_def split: option.splits)
  then show "load_config (save_config cfg e) k = cfg k"
    using assms(2)
    by (simp add: load_config_def save_config_def default_config_def map_add_def
        split: option.splits)
qed

theorem config_round_trip_witness:
  "valid_config [''output_format'' \<mapsto> PStr ''jpeg'', ''jpeg_quality'' \<mapsto> PInt 80]
   \<and> config_writable env_fresh
   \<and> load_config (save_config [''output_format'' \<mapsto> PStr ''jpeg'', ''jpeg_quality'' \<mapsto> PInt 80]
                     env_fresh)
     = [''output_format'' \<mapsto> PStr ''jpeg'', ''jpeg_quality'' \<mapsto> PInt 80]"
proof -
  have v: "valid_config [''output_format'' \<mapsto> PStr ''jpeg'', ''jpeg_quality'' \<mapsto> PInt 80]"
    by (simp add: valid_config_def quality_in_range_def)
  have w: "config_writable env_fresh"
    by (simp add: env_fresh_def)
  show ?thesis
    using config_round_trip [OF v w] v w by simp
qed

lemma choose_loop_png:
  assumes "\<forall>l \<in> set bad. lower (strip l) \<notin> {''q'', ''1'', ''2''}" and "lower (strip l) = ''2''"
  shows "choose_loop cfg (bad @ l # rest)
           = (Inr (Some (cfg(''output_format'' \<mapsto> PStr ''png''))), rest)"
  using assms by (induction bad) auto

text \<open>
  C10: when the user selects PNG at the format prompt (after any number of invalid
  entries), the configuration that is returned and saved is the loaded one with only
  \<^verbatim>\<open>output_format\<close> changed; \<^verbatim>\<open>jpeg_quality\<close>, like every other key, keeps the value
  it had when loaded.
\<close>

theorem choose_png_keeps_quality:
  assumes "\<forall>l \<in> set bad. lower (strip l) \<notin> {''q'', ''1'', ''2''}" and "lower (strip l) = ''2''"
  shows "\<exists>cfg. choose_format e (bad @ l # rest) = (Inr (Some cfg), rest, save_config cfg e)
           \<and> cfg = (load_config e)(''output_format'' \<mapsto> PStr ''png'')
           \<and> cfg ''jpeg_quality'' = load_config e ''jpeg_quality''
           \<and> (\<forall>k. k \<noteq> ''output_format'' \<longrightarrow> cfg k = load_config e k)"
  by (simp add: choose_format_def choose_loop_png [OF assms])

theorem choose_png_keeps_quality_witness:
  "\<exists>cfg. choose_format env80 [''x'', ''2'', ''y''] = (Inr (Some cfg), [''y''], save_config cfg env80)
    \<and> cfg ''jpeg_quality'' = Some (PInt 80) \<and> cfg ''output_format'' = Some (PStr ''png'')"
  using choose_png_keeps_quality [of "[''x'']" "''2''" env80 "[''y'']"]
  by (simp add: strip_def isspace_def lower_def lower_char_def load_config_def default_config_def
      env80_def)

section \<open>Image Normalizer: theorems\<close>

lemma DIV255_scaled: "x \<le> 255 \<Longrightarrow> DIV255 (x * 255) = x"
  unfolding DIV255_def Let_def drop_bit_eq_div by simp

lemma unat_byte_le: "unat (b :: byte) \<le> 255"
  using unsigned_less [of b, where ?'a = nat] by simp

lemma BLEND_transparent: "BLEND 0 in1 in2 = in1"
  by (simp add: BLEND_def DIV255_scaled unat_byte_le)

lemma BLEND_opaque: "BLEND 255 in1 in2 = in2"
  by (simp add: BLEND_def DIV255_scaled unat_byte_le)

lemma mode_simps:
  "im_data img = Px_L xs \<Longrightarrow> mode img = ''L''"
  "im_data img = Px_LA ys \<Longrightarrow> mode img = ''LA''"
  "im_data img = Px_P xs pal \<Longrightarrow> mode img = ''P''"
  "im_data img = Px_RGB zs \<Longrightarrow> mode img = ''RGB''"
  "im_data img = Px_RGBA ws \<Longrightarrow> mode img = ''RGBA''"
  by (simp_all add: mode_def)

lemma mode_RGB_iff: "mode img = ''RGB'' \<longleftrightarrow> (\<exists>zs. im_data img = Px_RGB zs)"
  by (simp add: mode_def split: pixels.splits)

text \<open>What \<open>sanitize_image\<close> returns, mode by mode.\<close>

lemma sanitize_image_RGBA:
  assumes "im_data img = Px_RGBA ps"
  shows "sanitize_image img =
           Inr \<lparr>im_size = im_size img,
                im_data = Px_RGB (map paste_pixel
                  (zip (replicate (fst (im_size img) * snd (im_size img)) (255, 255, 255))
                       (zip ps (map alpha_of ps))))\<rparr>"
  using assms
  by (simp add: sanitize_image_def mode_simps Image_new_RGB_def paste_def split_def band_def)

lemma sanitize_image_P:
  assumes "im_data img = Px_P xs pal"
  shows "sanitize_image img =
           Inr \<lparr>im_size = im_size img,
                im_data = Px_RGB (map paste_pixel
                  (zip (replicate (fst (im_size img) * snd (im_size img)) (255, 255, 255))
                       (zip (map pal xs) (map alpha_of (map pal xs)))))\<rparr>"
  using assms
  by (simp add: sanitize_image_def mode_simps Image_new_RGB_def paste_def split_def band_def
      convert_def mode_def)

lemma sanitize_image_LA:
  assumes "im_data img = Px_LA ps"
  shows "sanitize_image img = Inr (Image_new_RGB (im_size img) (255, 255, 255))"
  using assms by (simp add: sanitize_image_def mode_simps)

lemma sanitize_image_L:
  assumes "im_data img = Px_L xs"
  shows "sanitize_image img =
           Inr \<lparr>im_size = im_size img, im_data = Px_RGB (map (\<lambda>l. (l, l, l)) xs)\<rparr>"
  using assms by (simp add: sanitize_image_def mode_simps convert_def)

lemma sanitize_image_RGB:
  assumes "im_data img = Px_RGB xs"
  shows "sanitize_image img = Inr img"
  using assms by (simp add: sanitize_image_def mode_simps)

lemma paste_all_transparent:
  assumes "\<forall>p \<in> set ps. alpha_of p = 0" "length ps = n"
  shows "map paste_pixel (zip (replicate n c) (zip ps (map alpha_of ps))) = replicate n c"
  using assms
proof (induction ps arbitrary: n)
  case Nil
  then show ?case by simp
next
  case (Cons p ps)
  then obtain k where n: "n = Suc k" by (cases n) auto
  obtain r g b a where p: "p = (r, g, b, a)" by (cases p)
  obtain r1 g1 b1 where c: "c = (r1, g1, b1)" by (cases c)
  from Cons.prems n
  have "map paste_pixel (zip (replicate k c) (zip ps (map alpha_of ps))) = replicate k c"
    by (intro Cons.IH) auto
  moreover from Cons.prems p have "a = 0" by simp
  ultimately show ?case by (simp add: n p c BLEND_transparent)
qed

lemma paste_all_opaque:
  assumes "\<forall>p \<in> set ps. alpha_of p = 255" "length ps = n"
  shows "map paste_pixel (zip (replicate n c) (zip ps (map alpha_of ps))) = map rgb_of ps"
  using assms
proof (induction ps arbitrary: n)
  case Nil
  then show ?case by simp
next
  case (Cons p ps)
  then obtain k where n: "n = Suc k" by (cases n) auto
  obtain r g b a where p: "p = (r, g, b, a)" by (cases p)
  obtain r1 g1 b1 where c: "c = (r1, g1, b1)" by (cases c)
  from Cons.prems n
  have "map paste_pixel (zip (replicate k c) (zip ps (map alpha_of ps))) = map rgb_of ps"
    by (intro Cons.IH) auto
  moreover from Cons.prems p have "a = 255" by simp
  ultimately show ?case by (simp add: n p c BLEND_opaque)
qed

lemma sanitize_image_total_RGB:
  "\<exists>out zs. sanitize_image img = Inr out \<and> im_data out = Px_RGB zs \<and> im_size out = im_size img
      \<and> length zs =
          (case im_data img of
             Px_RGB xs \<Rightarrow> length xs
           | Px_L xs \<Rightarrow> length xs
           | Px_LA _ \<Rightarrow> fst (im_size img) * snd (im_size img)
           | d \<Rightarrow> min (fst (im_size img) * snd (im_size img)) (npixels d))"
proof (cases "im_data img")
  case (Px_L xs)
  then show ?thesis by (simp add: sanitize_image_L)
next
  case (Px_LA ys)
  then show ?thesis by (simp add: sanitize_image_LA Image_new_RGB_def)
next
  case (Px_P xs pal)
  then show ?thesis by (simp add: sanitize_image_P)
next
  case (Px_RGB zs)
  then show ?thesis by (simp add: sanitize_image_RGB)
next
  case (Px_RGBA ws)
  then show ?thesis by (simp add: sanitize_image_RGBA)
qed

text \<open>
  C1 fails on the code for mode \<^verbatim>\<open>LA\<close>: the canvas is made, nothing is pasted, and the
  blank canvas is returned. An opaque black pixel (alpha 255), which the claim says keeps
  its colour, comes out white.
\<close>

theorem sanitize_image_LA_blank:
  "sanitize_image \<lparr>im_size = (1, 1), im_data = Px_LA [(0, 255)]\<rparr>
     = Inr \<lparr>im_size = (1, 1), im_data = Px_RGB [(255, 255, 255)]\<rparr>"
  by (simp add: sanitize_image_def mode_def Image_new_RGB_def)

text \<open>
  C5: for a well-formed \<^verbatim>\<open>RGBA\<close> image, if every pixel has alpha 0 the result is the
  solid white image of the same size, and if every pixel has alpha 255 the result is the
  image of the same size made of the original red, green and blue values.
\<close>

theorem sanitize_rgba_extremes:
  assumes "im_data img = Px_RGBA ps" and "valid_image img"
  shows "((\<forall>p \<in> set ps. alpha_of p = 0) \<longrightarrow>
            sanitize_image img = Inr (Image_new_RGB (im_size img) (255, 255, 255)))
       \<and> ((\<forall>p \<in> set ps. alpha_of p = 255) \<longrightarrow>
            sanitize_image img = Inr \<lparr>im_size = im_size img, im_data = Px_RGB (map rgb_of ps)\<rparr>)"
proof -
  from assms have len: "length ps = fst (im_size img) * snd (im_size img)"
    by (simp add: valid_image_def)
  show ?thesis
    using paste_all_transparent [OF _ len] paste_all_opaque [OF _ len]
    by (simp add: sanitize_image_RGBA [OF assms(1)] Image_new_RGB_def)
qed

theorem sanitize_rgba_extremes_witness:
  "valid_image \<lparr>im_size = (2, 1), im_data = Px_RGBA [(10, 20, 30, 0), (1, 2, 3, 0)]\<rparr>
   \<and> sanitize_image \<lparr>im_size = (2, 1), im_data = Px_RGBA [(10, 20, 30, 0), (1, 2, 3, 0)]\<rparr>
       = Inr \<lparr>im_size = (2, 1), im_data = Px_RGB [(255, 255, 255), (255, 255, 255)]\<rparr>
   \<and> valid_image \<lparr>im_size = (2, 1), im_data = Px_RGBA [(10, 20, 30, 255), (1, 2, 3, 255)]\<rparr>
   \<and> sanitize_image \<lparr>im_size = (2, 1), im_data = Px_RGBA [(10, 20, 30, 255), (1, 2, 3, 255)]\<rparr>
       = Inr \<lparr>im_size = (2, 1), im_data = Px_RGB [(10, 20, 30), (1, 2, 3)]\<rparr>"
proof -
  have v0: "valid_image \<lparr>im_size = (2, 1), im_data = Px_RGBA [(10, 20, 30, 0), (1, 2, 3, 0)]\<rparr>"
    and v1: "valid_image \<lparr>im_size = (2, 1), im_data = Px_RGBA [(10, 20, 30, 255), (1, 2, 3, 255)]\<rparr>"
    by (simp_all add: valid_image_def)
  have two: "replicate 2 x = [x, x]" for x :: rgb
    by (simp add: numeral_2_eq_2)
  show ?thesis
    using
      sanitize_rgba_extremes [of "\<lparr>im_size = (2, 1), im_data = Px_RGBA [(10, 20, 30, 0), (1, 2, 3, 0)]\<rparr>"
        "[(10, 20, 30, 0), (1, 2, 3, 0)]"]
      sanitize_rgba_extremes [of "\<lparr>im_size = (2, 1), im_data = Px_RGBA [(10, 20, 30, 255), (1, 2, 3, 255)]\<rparr>"
        "[(10, 20, 30, 255), (1, 2, 3, 255)]"]
      v0 v1
    by (simp add: Image_new_RGB_def two)
qed

text \<open>
  C6: for every well-formed image of a supported mode (\<^verbatim>\<open>RGB\<close>, \<^verbatim>\<open>RGBA\<close>, grayscale,
  palette, palette with alpha), \<open>sanitize_image\<close> returns an image of mode \<^verbatim>\<open>RGB\<close>,
  with three bands (so no alpha band), of the same size and again well formed.
\<close>

theorem sanitize_image_plain_rgb:
  assumes "valid_image img"
  shows "\<exists>out. sanitize_image img = Inr out \<and> mode out = ''RGB'' \<and> length (split out) = 3
           \<and> im_size out = im_size img \<and> valid_image out"
proof -
  obtain out zs where o: "sanitize_image img = Inr out" "im_data out = Px_RGB zs"
      "im_size out = im_size img"
      "length zs =
          (case im_data img of
             Px_RGB xs \<Rightarrow> length xs
           | Px_L xs \<Rightarrow> length xs
           | Px_LA _ \<Rightarrow> fst (im_size img) * snd (im_size img)
           | d \<Rightarrow> min (fst (im_size img) * snd (im_size img)) (npixels d))"
    using sanitize_image_total_RGB [of img] by blast
  from o(4) assms have "length zs = fst (im_size img) * snd (im_size img)"
    by (cases "im_data img") (simp_all add: valid_image_def)
  with o show ?thesis
    by (simp add: mode_simps split_def valid_image_def)
qed

theorem sanitize_image_plain_rgb_witness:
  "valid_image \<lparr>im_size = (2, 1), im_data = Px_P [0, 1] (\<lambda>i. (i, i, i, 255 - i))\<rparr>
   \<and> (\<exists>out. sanitize_image \<lparr>im_size = (2, 1), im_data = Px_P [0, 1] (\<lambda>i. (i, i, i, 255 - i))\<rparr>
               = Inr out
           \<and> mode out = ''RGB'' \<and> length (split out) = 3 \<and> im_size out = (2, 1)
           \<and> valid_image out)"
proof -
  have v: "valid_image \<lparr>im_size = (2, 1), im_data = Px_P [0, 1] (\<lambda>i. (i, i, i, 255 - i))\<rparr>"
    by (simp add: valid_image_def)
  show ?thesis
    using sanitize_image_plain_rgb [OF v] v by simp
qed

text \<open>
  C7: \<open>sanitize_image\<close> returns a result for every image, applying it to that result
  returns the result again, and an image of mode \<^verbatim>\<open>RGB\<close> is returned as it is.
\<close>

theorem sanitize_image_idempotent:
  "(\<exists>y. sanitize_image x = Inr y \<and> sanitize_image y = Inr y)
   \<and> (mode x = ''RGB'' \<longrightarrow> sanitize_image x = Inr x)"
proof -
  obtain y zs where "sanitize_image x = Inr y" "im_data y = Px_RGB zs"
    using sanitize_image_total_RGB [of x] by blast
  then have "\<exists>y. sanitize_image x = Inr y \<and> sanitize_image y = Inr y"
    by (simp add: sanitize_image_RGB)
  moreover have "mode x = ''RGB'' \<longrightarrow> sanitize_image x = Inr x"
    by (auto simp: mode_RGB_iff sanitize_image_RGB)
  ultimately show ?thesis by blast
qed

theorem sanitize_image_idempotent_witness:
  "mode \<lparr>im_size = (1, 1), im_data = Px_RGB [(1, 2, 3)]\<rparr> = ''RGB''
   \<and> sanitize_image \<lparr>im_size = (1, 1), im_data = Px_RGB [(1, 2, 3)]\<rparr>
       = Inr \<lparr>im_size = (1, 1), im_data = Px_RGB [(1, 2, 3)]\<rparr>"
proof -
  have m: "mode \<lparr>im_size = (1, 1), im_data = Px_RGB [(1, 2, 3)]\<rparr> = ''RGB''"
    by (simp add: mode_def)
  show ?thesis
    using sanitize_image_idempotent [of "\<lparr>im_size = (1, 1), im_data = Px_RGB [(1, 2, 3)]\<rparr>"] m
    by simp
qed

section \<open>Converter Loop: theorems\<close>

lemma convert_one_valid:
  assumes "valid_file save (options_for fmt quality) ext fp"
  shows "\<exists>r bytes. convert_one save fmt quality ext fp out
             = (Inr r, out(stem (name fp) @ ext \<mapsto> bytes))
           \<and> filename r = name fp"
  using assms
  by (auto simp: valid_file_def convert_one_def split: sum.splits)

lemma convert_one_invalid:
  assumes "\<not> valid_file save (options_for fmt quality) ext fp"
  shows "\<exists>e. convert_one save fmt quality ext fp out = (Inl e, out)"
  using assms
  by (auto simp: valid_file_def convert_one_def split: sum.splits)

lemma unreadable_not_valid: "unreadable fp \<Longrightarrow> \<not> valid_file save opts ext fp"
  by (auto simp: unreadable_def valid_file_def split: sum.splits)

text \<open>
  One step of the loop, for a valid file and for any other file.
\<close>

lemma convert_loop_valid:
  assumes "valid_file save (options_for fmt quality) ext fp"
  shows "\<exists>r bytes. filename r = name fp
           \<and> convert_loop save fmt quality ext (fp # fps) stats out
               = convert_loop save fmt quality ext fps (stats @ [r])
                   (out(stem (name fp) @ ext \<mapsto> bytes))"
proof -
  from convert_one_valid [OF assms, of out] obtain r bytes where
    one: "convert_one save fmt quality ext fp out = (Inr r, out(stem (name fp) @ ext \<mapsto> bytes))"
    and r: "filename r = name fp"
    by blast
  have "convert_loop save fmt quality ext (fp # fps) stats out
          = convert_loop save fmt quality ext fps (stats @ [r])
              (out(stem (name fp) @ ext \<mapsto> bytes))"
    by (simp add: one)
  with r show ?thesis by blast
qed

lemma convert_loop_invalid:
  assumes "\<not> valid_file save (options_for fmt quality) ext fp"
  shows "convert_loop save fmt quality ext (fp # fps) stats out
           = convert_loop save fmt quality ext fps stats out"
proof -
  from convert_one_invalid [OF assms, of out] obtain e where
    "convert_one save fmt quality ext fp out = (Inl e, out)"
    by blast
  then show ?thesis by simp
qed

text \<open>
  The loop, from any records and output directory: the names recorded are those of the
  valid files, in order; the output directory only grows and holds the output of every
  valid file.
\<close>

lemma convert_loop_names:
  "map filename (fst (convert_loop save fmt quality ext fps stats out)) =
     map filename stats @ map name (filter (valid_file save (options_for fmt quality) ext) fps)"
proof (induction fps arbitrary: stats out)
  case Nil
  then show ?case by simp
next
  case (Cons fp fps)
  show ?case
  proof (cases "valid_file save (options_for fmt quality) ext fp")
    case True
    from convert_loop_valid [OF True, of fps stats out] obtain r bytes where
      "filename r = name fp"
      "convert_loop save fmt quality ext (fp # fps) stats out
         = convert_loop save fmt quality ext fps (stats @ [r])
             (out(stem (name fp) @ ext \<mapsto> bytes))"
      by blast
    then show ?thesis
      using True by (simp add: Cons.IH)
  next
    case False
    then show ?thesis
      by (simp only: convert_loop_invalid [OF False] Cons.IH filter.simps if_False)
  qed
qed

lemma convert_loop_dom:
  "dom out \<subseteq> dom (snd (convert_loop save fmt quality ext fps stats out))"
proof (induction fps arbitrary: stats out)
  case Nil
  then show ?case by simp
next
  case (Cons fp fps)
  show ?case
  proof (cases "valid_file save (options_for fmt quality) ext fp")
    case True
    from convert_loop_valid [OF True, of fps stats out] obtain r bytes where
      step: "convert_loop save fmt quality ext (fp # fps) stats out
         = convert_loop save fmt quality ext fps (stats @ [r])
             (out(stem (name fp) @ ext \<mapsto> bytes))"
      by blast
    have "dom out \<subseteq> dom (out(stem (name fp) @ ext \<mapsto> bytes))"
      by auto
    also have "\<dots> \<subseteq> dom (snd (convert_loop save fmt quality ext fps (stats @ [r])
                                 (out(stem (name fp) @ ext \<mapsto> bytes))))"
      by (rule Cons.IH)
    finally show ?thesis
      by (simp only: step)
  next
    case False
    show ?thesis
      by (simp only: convert_loop_invalid [OF False] Cons.IH)
  qed
qed

lemma convert_loop_outputs:
  assumes "f \<in> set fps" and "valid_file save (options_for fmt quality) ext f"
  shows "stem (name f) @ ext \<in> dom (snd (convert_loop save fmt quality ext fps stats out))"
  using assms(1)
proof (induction fps arbitrary: stats out)
  case Nil
  then show ?case by simp
next
  case (Cons fp fps)
  show ?case
  proof (cases "valid_file save (options_for fmt quality) ext fp")
    case True
    from convert_loop_valid [OF True, of fps stats out] obtain r bytes where
      step: "convert_loop save fmt quality ext (fp # fps) stats out
         = convert_loop save fmt quality ext fps (stats @ [r])
             (out(stem (name fp) @ ext \<mapsto> bytes))"
      by blast
    show ?thesis
    proof (cases "f = fp")
      case True
      have "stem (name fp) @ ext \<in> dom (out(stem (name fp) @ ext \<mapsto> bytes))"
        by simp
      then have "stem (name fp) @ ext \<in> dom (snd (convert_loop save fmt quality ext fps (stats @ [r])
                                 (out(stem (name fp) @ ext \<mapsto> bytes))))"
        using convert_loop_dom by blast
      then show ?thesis
        by (simp only: step True)
    next
      case False
      with Cons.prems have "f \<in> set fps" by simp
      then show ?thesis
        by (simp only: step Cons.IH)
    qed
  next
    case False
    with assms(2) have "f \<noteq> fp" by auto
    with Cons.prems have "f \<in> set fps" by simp
    then show ?thesis
      by (simp only: convert_loop_invalid [OF False] Cons.IH)
  qed
qed

text \<open>
  C4: a batch of eligible files with distinct names, all valid except one unreadable
  file. \<open>convert_files\<close> does not raise; the records returned are those of the valid
  files, in order; the output of each valid file is in the output directory; the
  unreadable file is in no record.
\<close>

theorem convert_files_skips_corrupt:
  assumes fmt: "config ''output_format'' = Some (PStr fmt)"
    and quality: "quality = (case config ''jpeg_quality'' of None \<Rightarrow> PInt 95 | Some q \<Rightarrow> q)"
    and ext: "ext = (if fmt = ''jpeg'' then ''.jpg'' else ''.png'')"
    and elig: "\<forall>f \<in> set (good1 @ bad # good2). eligible f"
    and good: "\<forall>f \<in> set (good1 @ good2). valid_file save (options_for (PStr fmt) quality) ext f"
    and bad: "unreadable bad"
    and dist: "distinct (map name (good1 @ bad # good2))"
  shows "\<exists>stats out'.
           convert_files save config (good1 @ bad # good2) out inputs = (Inr stats, out', inputs)
         \<and> map filename stats = map name (good1 @ good2)
         \<and> name bad \<notin> set (map filename stats)
         \<and> (\<forall>f \<in> set (good1 @ good2). stem (name f) @ ext \<in> dom out')"
proof -
  let ?files = "good1 @ bad # good2"
  let ?valid = "valid_file save (options_for (PStr fmt) quality) ext"
  have files: "filter eligible ?files = ?files"
    using elig by (simp add: filter_id_conv)
  have kept: "filter ?valid ?files = good1 @ good2"
    using good unreadable_not_valid [OF bad] by (simp add: filter_id_conv)
  obtain stats out' where
    loop: "convert_loop save (PStr fmt) quality ext ?files [] out = (stats, out')"
    by (cases "convert_loop save (PStr fmt) quality ext ?files [] out")
  have names: "map filename stats = map name (filter ?valid ?files)"
    using convert_loop_names [of save "PStr fmt" quality ext ?files "[]" out] loop by simp
  have outs: "stem (name f) @ ext \<in> dom out'" if "f \<in> set ?files" "?valid f" for f
    using convert_loop_outputs [OF that, of "[]" out] loop by simp
  have run: "convert_files save config ?files out inputs = (Inr stats, out', inputs)"
    using loop fmt
    unfolding convert_files_def files Let_def quality ext
    by (simp add: getitem_def)
  have names': "map filename stats = map name (good1 @ good2)"
    by (simp only: names kept)
  have absent: "name bad \<notin> set (map filename stats)"
    using names' dist by auto
  have written: "\<forall>f \<in> set (good1 @ good2). stem (name f) @ ext \<in> dom out'"
    using outs good by auto
  from run names' absent written show ?thesis by blast
qed

lemmas path_defs = eligible_def suffix_def stem_def rfind_dot_def lower_def lower_char_def

theorem convert_files_skips_corrupt_witness:
  "\<exists>stats out'.
     convert_files three_bytes jpeg80 [good_a, bad_b, good_c] Map.empty [] = (Inr stats, out', [])
     \<and> map filename stats = [''a.heic'', ''c.HEIF'']
     \<and> ''b.heic'' \<notin> set (map filename stats)
     \<and> ''a.jpg'' \<in> dom out' \<and> ''c.jpg'' \<in> dom out'"
proof -
  have fmt: "jpeg80 ''output_format'' = Some (PStr ''jpeg'')"
    by (simp add: jpeg80_def)
  have quality: "PInt 80 = (case jpeg80 ''jpeg_quality'' of None \<Rightarrow> PInt 95 | Some q \<Rightarrow> q)"
    by (simp add: jpeg80_def)
  have ext: "''.jpg'' = (if ''jpeg'' = ''jpeg'' then ''.jpg'' else ''.png'')"
    by simp
  have elig: "\<forall>f \<in> set ([good_a] @ bad_b # [good_c]). eligible f"
    by code_simp
  have san: "\<exists>img. sanitize_image pixel_image = Inr img"
    by (simp add: pixel_image_def sanitize_image_RGBA)
  have good: "\<forall>f \<in> set ([good_a] @ [good_c]).
      valid_file three_bytes (options_for (PStr ''jpeg'') (PInt 80)) ''.jpg'' f"
    using san by (auto simp: good_a_def good_c_def valid_file_def three_bytes_def)
  have bad: "unreadable bad_b"
    by (simp add: unreadable_def bad_b_def)
  have dist: "distinct (map name ([good_a] @ bad_b # [good_c]))"
    by (simp add: good_a_def bad_b_def good_c_def)
  have stems: "stem (name good_a) = ''a''" "stem (name good_c) = ''c''"
    by code_simp+
  show ?thesis
    using convert_files_skips_corrupt [OF fmt quality ext elig good bad dist, of Map.empty "[]"]
    by (simp add: stems) (simp add: good_a_def bad_b_def good_c_def)
qed

section \<open>Reporter: theorems\<close>

lemma ratio_shown: "ratio s = Inr (shown_ratio s)"
  by (simp add: ratio_def truediv_def shown_ratio_def)

lemma top_lines_map: "top_lines ss = Inr (map shown_line ss)"
  by (induction ss) (simp_all add: ratio_shown shown_line_def)

lemma descending_sorted_reverse: "descending (sorted_reverse converted_size stats)"
proof -
  have "sorted (map converted_size (sort_key converted_size (rev stats)))"
    by (rule sorted_sort_key)
  then show ?thesis
    by (simp add: descending_def sorted_reverse_def sorted_wrt_rev sorted_map)
qed

lemma mset_sorted_reverse: "mset (sorted_reverse key xs) = mset xs"
  by (simp add: sorted_reverse_def)

text \<open>
  C9: for a non-empty sequence of records the summary shows, without raising, the first
  three (or all, when fewer) of the records put in descending order of converted size,
  each with its file name, its two sizes and its ratio: converted size by original size,
  and 1 when the original size is zero.
\<close>

theorem print_summary_top_three:
  assumes "stats \<noteq> []"
  shows "print_summary_top stats = Inr (map shown_line (top3 stats))
       \<and> length (top3 stats) = min 3 (length stats)
       \<and> (\<exists>rest. mset (top3 stats @ rest) = mset stats \<and> descending (top3 stats @ rest))
       \<and> (\<forall>s \<in> set (top3 stats).
            shown_ratio s = (if original_size s = 0 then 1
                             else of_nat (converted_size s) / of_nat (original_size s)))"
proof -
  have shown: "print_summary_top stats = Inr (map shown_line (top3 stats))"
    using assms by (simp add: print_summary_top_def top_lines_map)
  have len: "length (top3 stats) = min 3 (length stats)"
    by (simp add: top3_def sorted_reverse_def)
  have "top3 stats @ drop 3 (sorted_reverse converted_size stats)
          = sorted_reverse converted_size stats"
    by (simp add: top3_def)
  then have "\<exists>rest. mset (top3 stats @ rest) = mset stats \<and> descending (top3 stats @ rest)"
    using mset_sorted_reverse [of converted_size stats] descending_sorted_reverse [of stats]
    by metis
  with shown len show ?thesis
    by (simp add: shown_ratio_def)
qed

theorem print_summary_top_three_witness:
  "stats4 \<noteq> []
   \<and> print_summary_top stats4
       = Inr [(''d.heic'', 10, 9, 9 / 10), (''b.heic'', 10, 7, 7 / 10), (''a.heic'', 0, 5, 1)]"
proof -
  have ne: "stats4 \<noteq> []"
    by (simp add: stats4_def)
  have top: "top3 stats4 =
     [\<lparr>filename = ''d.heic'', original_size = 10, converted_size = 9\<rparr>,
      \<lparr>filename = ''b.heic'', original_size = 10, converted_size = 7\<rparr>,
      \<lparr>filename = ''a.heic'', original_size = 0, converted_size = 5\<rparr>]"
    by (simp add: top3_def sorted_reverse_def stats4_def)
  show ?thesis
    using print_summary_top_three [OF ne] ne
    by (simp add: top shown_line_def shown_ratio_def)
qed

end
